theory Spec2Isabelle
  imports Complex_Main
begin

section \<open>Numbers of the source language\<close>

text \<open>
  The engine (class \<open>SurvivalAnalysisService\<close> of \<open>src/main.ts\<close>, mirrored by
  \<open>SurvivalAnalysisEngine\<close> of the C-sharp service) computes on IEEE doubles.  A number
  of the model is a real or one of the special values of that number type, and every
  operation below follows the ECMAScript rules for its operator or \<open>Math\<close> function on
  these four kinds of values.  The operations of this section are exact on the reals and
  know one zero; the rounding of each result to the nearest double is a separate layer,
  defined further down and used where a property depends on it.
\<close>

datatype jsnum = Num real | PInf | NInf | NaN

fun js_neg :: "jsnum \<Rightarrow> jsnum" where
  "js_neg (Num a) = Num (- a)"
| "js_neg PInf = NInf"
| "js_neg NInf = PInf"
| "js_neg NaN = NaN"

fun js_add :: "jsnum \<Rightarrow> jsnum \<Rightarrow> jsnum" where
  "js_add (Num a) (Num b) = Num (a + b)"
| "js_add NaN _ = NaN"
| "js_add _ NaN = NaN"
| "js_add PInf NInf = NaN"
| "js_add NInf PInf = NaN"
| "js_add PInf _ = PInf"
| "js_add _ PInf = PInf"
| "js_add NInf _ = NInf"
| "js_add _ NInf = NInf"

definition js_sub :: "jsnum \<Rightarrow> jsnum \<Rightarrow> jsnum" where
  "js_sub x y = js_add x (js_neg y)"

fun js_mul :: "jsnum \<Rightarrow> jsnum \<Rightarrow> jsnum" where
  "js_mul (Num a) (Num b) = Num (a * b)"
| "js_mul NaN _ = NaN"
| "js_mul _ NaN = NaN"
| "js_mul (Num a) PInf = (if a = 0 then NaN else if 0 < a then PInf else NInf)"
| "js_mul (Num a) NInf = (if a = 0 then NaN else if 0 < a then NInf else PInf)"
| "js_mul PInf (Num b) = (if b = 0 then NaN else if 0 < b then PInf else NInf)"
| "js_mul NInf (Num b) = (if b = 0 then NaN else if 0 < b then NInf else PInf)"
| "js_mul PInf PInf = PInf"
| "js_mul PInf NInf = NInf"
| "js_mul NInf PInf = NInf"
| "js_mul NInf NInf = PInf"

text \<open>
  Division never fails: a zero divisor gives an infinity, and \<open>0 / 0\<close> gives \<open>NaN\<close>.
\<close>

fun js_div :: "jsnum \<Rightarrow> jsnum \<Rightarrow> jsnum" where
  "js_div (Num a) (Num b) =
     (if b \<noteq> 0 then Num (a / b)
      else if a = 0 then NaN
      else if 0 < a then PInf else NInf)"
| "js_div NaN _ = NaN"
| "js_div _ NaN = NaN"
| "js_div (Num a) PInf = Num 0"
| "js_div (Num a) NInf = Num 0"
| "js_div PInf (Num b) = (if 0 \<le> b then PInf else NInf)"
| "js_div NInf (Num b) = (if 0 \<le> b then NInf else PInf)"
| "js_div PInf PInf = NaN"
| "js_div PInf NInf = NaN"
| "js_div NInf PInf = NaN"
| "js_div NInf NInf = NaN"

fun js_exp :: "jsnum \<Rightarrow> jsnum" where
  "js_exp (Num a) = Num (exp a)"
| "js_exp PInf = PInf"
| "js_exp NInf = Num 0"
| "js_exp NaN = NaN"

definition is_int :: "real \<Rightarrow> bool" where
  "is_int y = (y = of_int \<lfloor>y\<rfloor>)"

definition is_odd_int :: "real \<Rightarrow> bool" where
  "is_odd_int y = (is_int y \<and> odd \<lfloor>y\<rfloor>)"

text \<open>
  \<open>Math.pow\<close>, in the order of the cases of the language definition: a \<open>NaN\<close> exponent,
  a zero exponent, a \<open>NaN\<close> base, an infinite base, a zero base, an infinite exponent,
  a negative base with a fractional exponent, and at last the ordinary power.
\<close>

definition js_pow :: "jsnum \<Rightarrow> jsnum \<Rightarrow> jsnum" where
  "js_pow base exponent =
     (case exponent of
        NaN \<Rightarrow> NaN
      | Num y \<Rightarrow>
          (if y = 0 then Num 1
           else case base of
               NaN \<Rightarrow> NaN
             | PInf \<Rightarrow> (if 0 < y then PInf else Num 0)
             | NInf \<Rightarrow> (if 0 < y then (if is_odd_int y then NInf else PInf) else Num 0)
             | Num x \<Rightarrow>
                 (if x = 0 then (if 0 < y then Num 0 else PInf)
                  else if x < 0 \<and> \<not> is_int y then NaN
                  else if 0 < x then Num (x powr y)
                  else Num (x powi \<lfloor>y\<rfloor>)))
      | PInf \<Rightarrow>
          (case base of
               NaN \<Rightarrow> NaN
             | PInf \<Rightarrow> PInf
             | NInf \<Rightarrow> PInf
             | Num x \<Rightarrow>
                 (if x = 0 then Num 0
                  else if 1 < \<bar>x\<bar> then PInf
                  else if \<bar>x\<bar> = 1 then NaN else Num 0))
      | NInf \<Rightarrow>
          (case base of
               NaN \<Rightarrow> NaN
             | PInf \<Rightarrow> Num 0
             | NInf \<Rightarrow> Num 0
             | Num x \<Rightarrow>
                 (if x = 0 then PInf
                  else if 1 < \<bar>x\<bar> then Num 0
                  else if \<bar>x\<bar> = 1 then NaN else PInf)))"

text \<open>Comparison by \<open>>\<close> is false as soon as one side is \<open>NaN\<close>.\<close>

fun js_gt :: "jsnum \<Rightarrow> jsnum \<Rightarrow> bool" where
  "js_gt (Num a) (Num b) = (b < a)"
| "js_gt PInf (Num b) = True"
| "js_gt PInf NInf = True"
| "js_gt (Num a) NInf = True"
| "js_gt _ _ = False"

definition js_le :: "jsnum \<Rightarrow> jsnum \<Rightarrow> bool" where
  "js_le x y = (x \<noteq> NaN \<and> y \<noteq> NaN \<and> \<not> js_gt x y)"

text \<open>\<open>Math.max\<close> and \<open>Math.min\<close> return \<open>NaN\<close> when an argument is \<open>NaN\<close>.\<close>

definition js_max :: "jsnum \<Rightarrow> jsnum \<Rightarrow> jsnum" where
  "js_max x y = (if x = NaN \<or> y = NaN then NaN else if js_gt x y then x else y)"

definition js_min :: "jsnum \<Rightarrow> jsnum \<Rightarrow> jsnum" where
  "js_min x y = (if x = NaN \<or> y = NaN then NaN else if js_gt x y then y else x)"

section \<open>Data model\<close>

text \<open>
  \<open>RiskPredictionDto\<close>: the covariates of one patient.  Every numeric field carries the
  validator \<open>@IsNumber()\<close>, which rejects \<open>NaN\<close> and the infinities, so a feature vector
  that reaches the engine has finite covariates; the fields are reals.
\<close>

record RiskPredictionDto =
  patientId :: string
  age :: real
  numComorbidities :: real
  priorAdmissions :: real
  diabetes :: bool
  chf :: bool
  copd :: bool
  socioeconomicIndex :: real

text \<open>The object returned by \<open>predictReadmissionRisk\<close>.\<close>

record RiskPrediction =
  risk30Day :: jsnum
  risk60Day :: jsnum
  risk90Day :: jsnum
  hazardRatio :: jsnum
  riskCategory :: string
  confidenceLower :: jsnum
  confidenceUpper :: jsnum

text \<open>The object returned by \<open>calculateCompetingRisks\<close>.\<close>

record CompetingRisks =
  readmission :: jsnum
  death :: jsnum
  transfer :: jsnum
  recovery :: jsnum

section \<open>The survival analysis service\<close>

text \<open>
  \<open>calculateWeibullSurvival(time, shape = 1.5, scale = 60)\<close> and
  \<open>calculateHazardRate(time, shape = 1.5, scale = 60)\<close>.  The default arguments are
  written out at each call.  Neither body tests its arguments.
\<close>

definition calculateWeibullSurvival :: "jsnum \<Rightarrow> jsnum \<Rightarrow> jsnum \<Rightarrow> jsnum" where
  "calculateWeibullSurvival time shape scale =
     js_exp (js_neg (js_pow (js_div time scale) shape))"

definition calculateHazardRate :: "jsnum \<Rightarrow> jsnum \<Rightarrow> jsnum \<Rightarrow> jsnum" where
  "calculateHazardRate time shape scale =
     js_mul (js_div shape scale) (js_pow (js_div time scale) (js_sub shape (Num 1)))"

definition bool_num :: "bool \<Rightarrow> jsnum" where
  "bool_num b = (if b then Num 1 else Num 0)"

text \<open>
  \<open>calculateCoxRiskScore\<close>: the linear predictor, term by term and in the source's
  order of evaluation, then its exponential.
\<close>

definition linearPredictor :: "RiskPredictionDto \<Rightarrow> jsnum" where
  "linearPredictor patientFeatures =
     js_add (js_add (js_add (js_add (js_add (js_add
       (js_div (js_mul (Num 0.035) (js_sub (Num (age patientFeatures)) (Num 65))) (Num 10))
       (js_mul (Num 0.52) (Num (numComorbidities patientFeatures))))
       (js_mul (Num 0.64) (Num (priorAdmissions patientFeatures))))
       (js_mul (Num 0.52) (bool_num (diabetes patientFeatures))))
       (js_mul (Num 0.76) (bool_num (chf patientFeatures))))
       (js_mul (Num 0.41) (bool_num (copd patientFeatures))))
       (js_div (js_mul (Num (- 0.015))
          (js_sub (Num (socioeconomicIndex patientFeatures)) (Num 50))) (Num 50))"

definition calculateCoxRiskScore :: "RiskPredictionDto \<Rightarrow> jsnum" where
  "calculateCoxRiskScore patientFeatures = js_exp (linearPredictor patientFeatures)"

text \<open>The conditional expression that names the category from the 30-day risk.\<close>

definition categorize :: "jsnum \<Rightarrow> string" where
  "categorize risk30 =
     (if js_gt risk30 (Num 0.6) then ''high''
      else if js_gt risk30 (Num 0.3) then ''medium'' else ''low'')"

text \<open>
  \<open>predictReadmissionRisk\<close>.  The category and the confidence band are computed from the
  risk before clamping, the three returned risks are clamped.
\<close>

definition predictReadmissionRisk :: "RiskPredictionDto \<Rightarrow> RiskPrediction" where
  "predictReadmissionRisk patientFeatures =
     (let hazardRatio = calculateCoxRiskScore patientFeatures;
          baselineSurvival30 = calculateWeibullSurvival (Num 30) (Num 1.5) (Num 60);
          baselineSurvival60 = calculateWeibullSurvival (Num 60) (Num 1.5) (Num 60);
          baselineSurvival90 = calculateWeibullSurvival (Num 90) (Num 1.5) (Num 60);
          adjustedSurvival30 = js_pow baselineSurvival30 hazardRatio;
          adjustedSurvival60 = js_pow baselineSurvival60 hazardRatio;
          adjustedSurvival90 = js_pow baselineSurvival90 hazardRatio;
          risk30 = js_sub (Num 1) adjustedSurvival30;
          risk60 = js_sub (Num 1) adjustedSurvival60;
          risk90 = js_sub (Num 1) adjustedSurvival90;
          riskCategory = categorize risk30
      in \<lparr> risk30Day = js_min (js_max risk30 (Num 0)) (Num 1),
           risk60Day = js_min (js_max risk60 (Num 0)) (Num 1),
           risk90Day = js_min (js_max risk90 (Num 0)) (Num 1),
           hazardRatio = hazardRatio,
           riskCategory = riskCategory,
           confidenceLower = js_max (Num 0) (js_mul risk30 (Num 0.85)),
           confidenceUpper = js_min (Num 1) (js_mul risk30 (Num 1.15)) \<rparr>)"

text \<open>The three recommendation lists, in the order in which they are pushed.\<close>

definition highPlan :: "string list" where
  "highPlan =
     [''HIGH PRIORITY: Schedule follow-up within 3 days of discharge'',
      ''Arrange home health nursing visit within 24 hours'',
      ''Implement daily medication adherence monitoring'',
      ''Consider transitional care management program enrollment'',
      ''Schedule telehealth check-in at 48 hours post-discharge'',
      ''Ensure caregiver education and support systems in place'']"

definition mediumPlan :: "string list" where
  "mediumPlan =
     [''Schedule follow-up within 7 days of discharge'',
      ''Medication reconciliation and adherence counseling required'',
      ''Provide written discharge instructions with 24/7 contact numbers'',
      ''Arrange follow-up call within 48-72 hours'',
      ''Consider home health evaluation'']"

definition lowPlan :: "string list" where
  "lowPlan =
     [''Standard follow-up within 14 days of discharge'',
      ''Provide discharge education materials'',
      ''Ensure understanding of medication regimen'',
      ''Provide emergency contact information'']"

text \<open>
  \<open>generateCarePlan(riskAssessment)\<close> of the TypeScript service branches on the
  \<open>risk30Day\<close> field of its argument.
\<close>

definition generateCarePlan :: "RiskPrediction \<Rightarrow> string list" where
  "generateCarePlan riskAssessment =
     (if js_gt (risk30Day riskAssessment) (Num 0.6) then [] @ highPlan
      else if js_gt (risk30Day riskAssessment) (Num 0.3) then [] @ mediumPlan
      else [] @ lowPlan)"

text \<open>
  \<open>GenerateCarePlan(risk30, riskCategory)\<close> of the C-sharp engine branches on its category
  string and ignores the number.
\<close>

definition GenerateCarePlan :: "jsnum \<Rightarrow> string \<Rightarrow> string list" where
  "GenerateCarePlan risk30 category =
     (if category = ''high'' then [] @ highPlan
      else if category = ''medium'' then [] @ mediumPlan
      else [] @ lowPlan)"

text \<open>\<open>calculateCompetingRisks(time)\<close>: four bases, their total, four quotients.\<close>

definition calculateCompetingRisks :: "jsnum \<Rightarrow> CompetingRisks" where
  "calculateCompetingRisks time =
     (let baseReadmission =
            js_mul (Num 0.4) (js_sub (Num 1) (js_exp (js_div (js_neg time) (Num 45))));
          baseDeath =
            js_mul (Num 0.1) (js_sub (Num 1) (js_exp (js_div (js_neg time) (Num 60))));
          baseTransfer =
            js_mul (Num 0.12) (js_sub (Num 1) (js_exp (js_div (js_neg time) (Num 50))));
          baseRecovery =
            js_mul (Num 0.38) (js_sub (Num 1) (js_exp (js_div (js_neg time) (Num 40))));
          total = js_add (js_add (js_add baseReadmission baseDeath) baseTransfer) baseRecovery
      in \<lparr> readmission = js_div baseReadmission total,
           death = js_div baseDeath total,
           transfer = js_div baseTransfer total,
           recovery = js_div baseRecovery total \<rparr>)"

text \<open>
  \<open>RiskAssessmentService.assessPatientRisk\<close> without its two database writes: the
  prediction, the competing risks at day 30, and the care plan made from the prediction.
\<close>

record Assessment =
  prediction :: RiskPrediction
  competingRisks :: CompetingRisks
  carePlan :: "string list"

definition assessPatientRisk :: "RiskPredictionDto \<Rightarrow> Assessment" where
  "assessPatientRisk patientData =
     (let riskPrediction = predictReadmissionRisk patientData;
          competingRisks = calculateCompetingRisks (Num 30);
          carePlan = generateCarePlan riskPrediction
      in \<lparr> prediction = riskPrediction,
           competingRisks = competingRisks,
           carePlan = carePlan \<rparr>)"

section \<open>Auxiliary real-valued views\<close>

text \<open>
  The definitions of this section are not part of the service.  They name the real numbers
  that the service is shown to compute, so that the analysis can be done on reals:
  the linear predictor, the exponent \<open>(t / 60) ^ 1.5\<close> of the default baseline, and the
  risk \<open>1 - S\<^sub>0(t) ^ r\<close> at a horizon.
\<close>

definition lin_pred :: "RiskPredictionDto \<Rightarrow> real" where
  "lin_pred f =
     0.035 * (age f - 65) / 10 + 0.52 * numComorbidities f + 0.64 * priorAdmissions f
     + 0.52 * (if diabetes f then 1 else 0) + 0.76 * (if chf f then 1 else 0)
     + 0.41 * (if copd f then 1 else 0) + (- 0.015) * (socioeconomicIndex f - 50) / 50"

definition cum_hazard :: "real \<Rightarrow> real" where
  "cum_hazard t = (t / 60) powr 1.5"

definition risk_at :: "real \<Rightarrow> RiskPredictionDto \<Rightarrow> real" where
  "risk_at t f = 1 - exp (- (cum_hazard t * exp (lin_pred f)))"

text \<open>
  The competing-risks formula in the words of the specification:
  \<open>base\<^sub>k(t) = w\<^sub>k * (1 - exp (- t / \<tau>\<^sub>k))\<close>, with the weights 0.40, 0.10, 0.12, 0.38 and
  the time constants 45, 60, 50, 40, and the sum of the four bases.
\<close>

definition spec_base :: "real \<Rightarrow> real \<Rightarrow> real \<Rightarrow> real" where
  "spec_base w tau t = w * (1 - exp (- t / tau))"

definition spec_total :: "real \<Rightarrow> real" where
  "spec_total t =
     spec_base 0.4 45 t + spec_base 0.1 60 t + spec_base 0.12 50 t + spec_base 0.38 40 t"

text \<open>The reference patient of the specification's first example, under any identifier.\<close>

definition referencePatient :: "string \<Rightarrow> RiskPredictionDto" where
  "referencePatient pid =
     \<lparr> patientId = pid, age = 65, numComorbidities = 0, priorAdmissions = 0,
       diabetes = False, chf = False, copd = False, socioeconomicIndex = 50 \<rparr>"

section \<open>Double-precision arithmetic\<close>

text \<open>
  Rounding to the nearest double, ties to the even significand: the result is the multiple
  of \<open>2 ^ (e - 52)\<close> nearest to \<open>y\<close>, where \<open>2 ^ e \<le> \<bar>y\<bar> < 2 ^ (e + 1)\<close> and \<open>e\<close> is not
  taken below -1022 (the subnormal range); a result of magnitude \<open>2 ^ 1024\<close> is an
  infinity.  A zero keeps no sign.
\<close>

definition round_even :: "real \<Rightarrow> int" where
  "round_even z =
     (if z - of_int \<lfloor>z\<rfloor> < 1/2 then \<lfloor>z\<rfloor>
      else if 1/2 < z - of_int \<lfloor>z\<rfloor> then \<lfloor>z\<rfloor> + 1
      else if even \<lfloor>z\<rfloor> then \<lfloor>z\<rfloor> else \<lfloor>z\<rfloor> + 1)"

definition binade :: "real \<Rightarrow> int" where
  "binade y = max \<lfloor>log 2 \<bar>y\<bar>\<rfloor> (- 1022)"

definition round_double :: "real \<Rightarrow> jsnum" where
  "round_double y =
     (if y = 0 then Num 0
      else let s = 2 powi (binade y - 52);
               m = of_int (round_even (y / s)) * s
           in if 2 ^ 1024 \<le> \<bar>m\<bar> then (if 0 < y then PInf else NInf) else Num m)"

text \<open>An operation in double precision is the exact operation followed by the rounding.\<close>

definition rounded :: "(real \<Rightarrow> jsnum) \<Rightarrow> jsnum \<Rightarrow> jsnum" where
  "rounded rd x = (case x of Num a \<Rightarrow> rd a | PInf \<Rightarrow> PInf | NInf \<Rightarrow> NInf | NaN \<Rightarrow> NaN)"

text \<open>
  The functions of the service once more, with the rounding as a parameter \<open>rd\<close>: every
  decimal literal that is not a double is rounded, and so is the result of every operation
  and of \<open>Math.exp\<close> and \<open>Math.pow\<close>, which are taken to return the double nearest to the
  exact value.  The numbers passed in are taken to be doubles already.  With \<open>rd = Num\<close>
  nothing is rounded and these are the functions defined above for the service; with
  \<open>rd = round_double\<close> they compute as the program does.
\<close>

definition calculateWeibullSurvival_with :: "(real \<Rightarrow> jsnum) \<Rightarrow> jsnum \<Rightarrow> jsnum \<Rightarrow> jsnum \<Rightarrow> jsnum" where
  "calculateWeibullSurvival_with rd time shape scale =
     rounded rd (js_exp (js_neg (rounded rd (js_pow (rounded rd (js_div time scale)) shape))))"

definition linearPredictor_with :: "(real \<Rightarrow> jsnum) \<Rightarrow> RiskPredictionDto \<Rightarrow> jsnum" where
  "linearPredictor_with rd patientFeatures =
     rounded rd (js_add (rounded rd (js_add (rounded rd (js_add (rounded rd (js_add
       (rounded rd (js_add (rounded rd (js_add
       (rounded rd (js_div (rounded rd (js_mul (rd 0.035)
          (rounded rd (js_sub (Num (age patientFeatures)) (Num 65))))) (Num 10)))
       (rounded rd (js_mul (rd 0.52) (Num (numComorbidities patientFeatures))))))
       (rounded rd (js_mul (rd 0.64) (Num (priorAdmissions patientFeatures))))))
       (rounded rd (js_mul (rd 0.52) (bool_num (diabetes patientFeatures))))))
       (rounded rd (js_mul (rd 0.76) (bool_num (chf patientFeatures))))))
       (rounded rd (js_mul (rd 0.41) (bool_num (copd patientFeatures))))))
       (rounded rd (js_div (rounded rd (js_mul (rd (- 0.015))
          (rounded rd (js_sub (Num (socioeconomicIndex patientFeatures)) (Num 50))))) (Num 50))))"

definition calculateCoxRiskScore_with :: "(real \<Rightarrow> jsnum) \<Rightarrow> RiskPredictionDto \<Rightarrow> jsnum" where
  "calculateCoxRiskScore_with rd patientFeatures =
     rounded rd (js_exp (linearPredictor_with rd patientFeatures))"

definition categorize_with :: "(real \<Rightarrow> jsnum) \<Rightarrow> jsnum \<Rightarrow> string" where
  "categorize_with rd risk30 =
     (if js_gt risk30 (rd 0.6) then ''high''
      else if js_gt risk30 (rd 0.3) then ''medium'' else ''low'')"

definition predictReadmissionRisk_with :: "(real \<Rightarrow> jsnum) \<Rightarrow> RiskPredictionDto \<Rightarrow> RiskPrediction" where
  "predictReadmissionRisk_with rd patientFeatures =
     (let hazardRatio = calculateCoxRiskScore_with rd patientFeatures;
          baselineSurvival30 = calculateWeibullSurvival_with rd (Num 30) (Num 1.5) (Num 60);
          baselineSurvival60 = calculateWeibullSurvival_with rd (Num 60) (Num 1.5) (Num 60);
          baselineSurvival90 = calculateWeibullSurvival_with rd (Num 90) (Num 1.5) (Num 60);
          adjustedSurvival30 = rounded rd (js_pow baselineSurvival30 hazardRatio);
          adjustedSurvival60 = rounded rd (js_pow baselineSurvival60 hazardRatio);
          adjustedSurvival90 = rounded rd (js_pow baselineSurvival90 hazardRatio);
          risk30 = rounded rd (js_sub (Num 1) adjustedSurvival30);
          risk60 = rounded rd (js_sub (Num 1) adjustedSurvival60);
          risk90 = rounded rd (js_sub (Num 1) adjustedSurvival90);
          riskCategory = categorize_with rd risk30
      in \<lparr> risk30Day = js_min (js_max risk30 (Num 0)) (Num 1),
           risk60Day = js_min (js_max risk60 (Num 0)) (Num 1),
           risk90Day = js_min (js_max risk90 (Num 0)) (Num 1),
           hazardRatio = hazardRatio,
           riskCategory = riskCategory,
           confidenceLower = js_max (Num 0) (rounded rd (js_mul risk30 (rd 0.85))),
           confidenceUpper = js_min (Num 1) (rounded rd (js_mul risk30 (rd 1.15))) \<rparr>)"

definition calculateCompetingRisks_with :: "(real \<Rightarrow> jsnum) \<Rightarrow> jsnum \<Rightarrow> CompetingRisks" where
  "calculateCompetingRisks_with rd time =
     (let baseReadmission =
            rounded rd (js_mul (rd 0.4) (rounded rd (js_sub (Num 1)
              (rounded rd (js_exp (rounded rd (js_div (js_neg time) (Num 45))))))));
          baseDeath =
            rounded rd (js_mul (rd 0.1) (rounded rd (js_sub (Num 1)
              (rounded rd (js_exp (rounded rd (js_div (js_neg time) (Num 60))))))));
          baseTransfer =
            rounded rd (js_mul (rd 0.12) (rounded rd (js_sub (Num 1)
              (rounded rd (js_exp (rounded rd (js_div (js_neg time) (Num 50))))))));
          baseRecovery =
            rounded rd (js_mul (rd 0.38) (rounded rd (js_sub (Num 1)
              (rounded rd (js_exp (rounded rd (js_div (js_neg time) (Num 40))))))));
          total = rounded rd (js_add (rounded rd (js_add (rounded rd
                    (js_add baseReadmission baseDeath)) baseTransfer)) baseRecovery)
      in \<lparr> readmission = rounded rd (js_div baseReadmission total),
           death = rounded rd (js_div baseDeath total),
           transfer = rounded rd (js_div baseTransfer total),
           recovery = rounded rd (js_div baseRecovery total) \<rparr>)"

section \<open>What the service computes on finite inputs\<close>

lemma linearPredictor_Num: "linearPredictor f = Num (lin_pred f)"
  by (simp add: linearPredictor_def lin_pred_def js_sub_def bool_num_def)

lemma cox_Num: "calculateCoxRiskScore f = Num (exp (lin_pred f))"
  by (simp add: calculateCoxRiskScore_def linearPredictor_Num)

lemma js_pow_pos: "0 < x \<Longrightarrow> js_pow (Num x) (Num y) = Num (x powr y)"
  by (simp add: js_pow_def)

lemma js_div_Num: "b \<noteq> 0 \<Longrightarrow> js_div (Num a) (Num b) = Num (a / b)"
  by simp

lemma weibull_in_domain:
  "0 < t \<Longrightarrow> 0 < s \<Longrightarrow>
   calculateWeibullSurvival (Num t) (Num k) (Num s) = Num (exp (- ((t / s) powr k)))"
  by (simp add: calculateWeibullSurvival_def js_pow_pos)

lemma adjusted_survival: "js_pow (Num (exp a)) (Num r) = Num (exp (a * r))"
  by (simp add: js_pow_pos powr_def mult.commute)

lemma risk_at_bounds: "0 < t \<Longrightarrow> 0 < risk_at t f \<and> risk_at t f < 1"
  by (simp add: risk_at_def cum_hazard_def)

lemma clamp_unit: "0 \<le> x \<Longrightarrow> x \<le> 1 \<Longrightarrow> js_min (js_max (Num x) (Num 0)) (Num 1) = Num x"
  by (simp add: js_min_def js_max_def)

lemma raw_risk:
  assumes "0 < t"
  shows "js_sub (Num 1) (js_pow (calculateWeibullSurvival (Num t) (Num (3 / 2)) (Num 60))
           (Num (exp (lin_pred f)))) = Num (risk_at t f)"
  using assms
  by (simp add: weibull_in_domain adjusted_survival js_sub_def risk_at_def cum_hazard_def)

lemma predict_char:
  "predictReadmissionRisk f =
     \<lparr> risk30Day = Num (risk_at 30 f), risk60Day = Num (risk_at 60 f),
       risk90Day = Num (risk_at 90 f),
       hazardRatio = Num (exp (lin_pred f)),
       riskCategory = categorize (Num (risk_at 30 f)),
       confidenceLower = js_max (Num 0) (Num (risk_at 30 f * 0.85)),
       confidenceUpper = js_min (Num 1) (Num (risk_at 30 f * 1.15)) \<rparr>"
proof -
  have b: "0 \<le> risk_at t f" "risk_at t f \<le> 1" if "0 < t" for t
    using risk_at_bounds [OF that, of f] by simp_all
  show ?thesis
    unfolding predictReadmissionRisk_def Let_def
    by (simp add: raw_risk clamp_unit b cox_Num)
qed

lemma cum_hazard_mono: "0 \<le> s \<Longrightarrow> s \<le> t \<Longrightarrow> cum_hazard s \<le> cum_hazard t"
  unfolding cum_hazard_def by (rule powr_mono2) simp_all

lemma risk_at_mono: "0 \<le> s \<Longrightarrow> s \<le> t \<Longrightarrow> risk_at s f \<le> risk_at t f"
  using cum_hazard_mono [of s t] by (simp add: risk_at_def mult_right_mono)

subsection \<open>Competing risks\<close>

lemma base_eval:
  "tau \<noteq> 0 \<Longrightarrow>
   js_mul (Num w) (js_sub (Num 1) (js_exp (js_div (js_neg (Num t)) (Num tau))))
     = Num (spec_base w tau t)"
  by (simp add: js_sub_def spec_base_def)

lemma spec_base_pos: "0 < w \<Longrightarrow> 0 < tau \<Longrightarrow> 0 < t \<Longrightarrow> 0 < spec_base w tau t"
  by (simp add: spec_base_def)

lemma spec_total_pos: "0 < t \<Longrightarrow> 0 < spec_total t"
  unfolding spec_total_def by (intro add_pos_pos spec_base_pos) simp_all

lemma competing_unfold:
  "calculateCompetingRisks (Num t) =
     \<lparr> readmission = js_div (Num (spec_base 0.4 45 t)) (Num (spec_total t)),
       death = js_div (Num (spec_base 0.1 60 t)) (Num (spec_total t)),
       transfer = js_div (Num (spec_base 0.12 50 t)) (Num (spec_total t)),
       recovery = js_div (Num (spec_base 0.38 40 t)) (Num (spec_total t)) \<rparr>"
  unfolding calculateCompetingRisks_def Let_def spec_total_def
  by (simp only: base_eval js_add.simps)

lemma quotients_sum:
  fixes T :: real
  shows "T \<noteq> 0 \<Longrightarrow> T = a + b + c + d \<Longrightarrow> a / T + b / T + c / T + d / T = 1"
  by (simp add: add_divide_distrib [symmetric])

subsection \<open>The number \<open>exp (- (1/2) ^ 1.5)\<close>\<close>

lemma half_powr_sq: "((1/2::real) powr (3/2))\<^sup>2 = 1/8"
proof -
  have "((1/2::real) powr (3/2))\<^sup>2 = ((1/2) powr (3/2)) powr 2"
    by simp
  also have "\<dots> = (1/2) powr 3"
    by (simp only: powr_powr) simp
  also have "\<dots> = 1/8"
    by (simp add: power_divide)
  finally show ?thesis .
qed

lemma half_powr_bounds:
  "0.35355 < (1/2::real) powr (3/2)" "(1/2::real) powr (3/2) < 0.35356"
proof -
  let ?c = "(1/2::real) powr (3/2)"
  have pos: "0 \<le> ?c" by simp
  have "(0.35355::real)\<^sup>2 < ?c\<^sup>2"
    unfolding half_powr_sq by (simp add: power2_eq_square)
  then show "0.35355 < ?c"
    using pos by (rule power2_less_imp_less)
  have "?c\<^sup>2 < (0.35356::real)\<^sup>2"
    unfolding half_powr_sq by (simp add: power2_eq_square)
  then show "?c < 0.35356"
    by (rule power2_less_imp_less) simp
qed

text \<open>
  Six terms of the exponential series at \<open>- c\<close>, where \<open>c\<^sup>2 = 1/8\<close>, and the remainder,
  which lies between 0 and \<open>2 / (720 * 512)\<close>.
\<close>

lemma exp_neg_half_powr_bounds:
  "0.70217 < exp (- ((1/2::real) powr (3/2)))" "exp (- ((1/2::real) powr (3/2))) < 0.7022"
proof -
  define c :: real where "c = (1/2) powr (3/2)"
  have c2: "c\<^sup>2 = 1/8"
    unfolding c_def by (rule half_powr_sq)
  have lo: "0.35355 < c" and hi: "c < 0.35356"
    unfolding c_def by (rule half_powr_bounds)+
  have c3: "c ^ 3 = c / 8" and c4: "c ^ 4 = 1/64" and c5: "c ^ 5 = c / 64" and c6: "c ^ 6 = 1/512"
  proof -
    have "c ^ 3 = c\<^sup>2 * c" by (simp add: power3_eq_cube power2_eq_square)
    then show "c ^ 3 = c / 8" by (simp add: c2)
    have "c ^ 4 = c\<^sup>2 * c\<^sup>2" by (simp add: power2_eq_square power4_eq_xxxx)
    then show "c ^ 4 = 1/64" by (simp add: c2)
    have "c ^ 5 = c\<^sup>2 * c\<^sup>2 * c" by (simp add: power2_eq_square eval_nat_numeral)
    then show "c ^ 5 = c / 64" by (simp add: c2)
    have "c ^ 6 = c\<^sup>2 * c\<^sup>2 * c\<^sup>2" by (simp add: power2_eq_square eval_nat_numeral)
    then show "c ^ 6 = 1/512" by (simp add: c2)
  qed
  obtain t where t: "\<bar>t\<bar> \<le> \<bar>- c\<bar>"
    and e: "exp (- c) = (\<Sum>m<6. ((- c) ^ m) / fact m) + (exp t / fact 6) * (- c) ^ 6"
    using Maclaurin_exp_le [of "- c" 6] by blast
  have sum6: "(\<Sum>m<6. ((- c) ^ m) / fact m)
      = 1 - c + c\<^sup>2 / 2 - c ^ 3 / 6 + c ^ 4 / 24 - c ^ 5 / 120"
    by (simp add: eval_nat_numeral)
  define E where "E = exp t"
  have e': "exp (- c) = 1 - c + 1/16 - c / 48 + 1/1536 - c / 7680 + E / 368640"
    unfolding e sum6 E_def by (simp add: c2 c3 c4 c5 c6 fact_numeral)
  have "t \<le> 1/2"
    using t hi lo by (simp add: abs_if split: if_splits)
  then have "exp t \<le> exp (1/2)"
    by (simp only: exp_le_cancel_iff)
  then have et: "E \<le> 2"
    unfolding E_def using exp_half_le2 by (rule order_trans)
  have et0: "0 < E"
    unfolding E_def by simp
  show "0.70217 < exp (- ((1/2::real) powr (3/2)))"
    unfolding c_def [symmetric] e' using hi et0 by simp
  show "exp (- ((1/2::real) powr (3/2))) < 0.7022"
    unfolding c_def [symmetric] e' using lo et by simp
qed

lemma risk_at_reference: "risk_at 30 (referencePatient pid) = 1 - exp (- ((1/2) powr (3/2)))"
  by (simp add: risk_at_def cum_hazard_def lin_pred_def referencePatient_def)

subsection \<open>Competing risks in exact arithmetic\<close>

lemma competing_exact:
  assumes "0 < t"
  shows "calculateCompetingRisks (Num t) =
     \<lparr> readmission = Num (spec_base 0.4 45 t / spec_total t),
       death = Num (spec_base 0.1 60 t / spec_total t),
       transfer = Num (spec_base 0.12 50 t / spec_total t),
       recovery = Num (spec_base 0.38 40 t / spec_total t) \<rparr>"
proof -
  have nz: "spec_total t \<noteq> 0"
    using spec_total_pos [OF assms] by simp
  show ?thesis
    by (simp only: competing_unfold js_div_Num [OF nz])
qed

lemma competing_exact_sum:
  assumes "0 < t"
  shows "spec_base 0.4 45 t / spec_total t + spec_base 0.1 60 t / spec_total t
     + spec_base 0.12 50 t / spec_total t + spec_base 0.38 40 t / spec_total t = 1"
proof -
  have nz: "spec_total t \<noteq> 0"
    using spec_total_pos [OF assms] by simp
  show ?thesis
    by (rule quotients_sum [OF nz]) (simp only: spec_total_def)
qed

section \<open>Rounding to the nearest double\<close>

lemma round_even_int: "round_even (of_int k) = k"
  by (simp add: round_even_def)

lemma round_even_err: "\<bar>of_int (round_even z) - z\<bar> \<le> 1/2"
  unfolding round_even_def by (auto simp add: abs_if split: if_splits) linarith+

lemma round_even_nonneg: "0 \<le> z \<Longrightarrow> 0 \<le> round_even z"
  unfolding round_even_def by (auto split: if_splits)

lemma round_even_up: "of_int k - 1/2 < z \<Longrightarrow> z \<le> of_int k \<Longrightarrow> round_even z = k"
proof -
  assume a: "of_int k - 1/2 < z" and b: "z \<le> of_int k"
  show ?thesis
  proof (cases "z = of_int k")
    case True
    then show ?thesis by (simp add: round_even_int)
  next
    case False
    with b have lt: "z < of_int k" by simp
    have fl: "\<lfloor>z\<rfloor> = k - 1"
      using a lt by (simp add: floor_eq_iff)
    show ?thesis
      unfolding round_even_def fl using a lt by simp
  qed
qed

lemma binade_eq:
  assumes "2 powi e \<le> \<bar>y\<bar>" "\<bar>y\<bar> < 2 powi (e + 1)" "- 1022 \<le> e"
  shows "binade y = e"
proof -
  have pos: "0 < \<bar>y\<bar>"
    using assms(1) by (smt (verit) zero_less_power_int)
  have a: "2 powr of_int e \<le> \<bar>y\<bar>"
    using assms(1) by (simp add: powr_real_of_int')
  have "(2::real) powr (of_int e + 1) = 2 powi (e + 1)"
    using powr_real_of_int' [of "2::real" "e + 1"] by simp
  then have b: "\<bar>y\<bar> < 2 powr (of_int e + 1)"
    using assms(2) by simp
  have "\<lfloor>log 2 \<bar>y\<bar>\<rfloor> = e"
    using a b pos by (simp add: floor_log_eq_powr_iff)
  then show ?thesis
    using assms(3) by (simp add: binade_def)
qed

lemma round_double_eval:
  fixes y :: real
  assumes "2 powi e \<le> \<bar>y\<bar>" "\<bar>y\<bar> < 2 powi (e + 1)" "- 1022 \<le> e"
    and "\<bar>of_int (round_even (y / 2 powi (e - 52))) * (2::real) powi (e - 52)\<bar> < 2 ^ 1024"
  shows "round_double y = Num (of_int (round_even (y / 2 powi (e - 52))) * 2 powi (e - 52))"
proof -
  have "y \<noteq> 0"
    using assms(1) by (smt (verit) zero_less_power_int)
  then show ?thesis
    using assms(4) unfolding round_double_def binade_eq [OF assms(1-3)] Let_def
    by (simp only: if_False linorder_not_le [symmetric])
qed


subsection \<open>The exact functions are the unrounded instance\<close>

lemma rounded_simps [simp]:
  "rounded rd (Num a) = rd a" "rounded rd PInf = PInf" "rounded rd NInf = NInf"
  "rounded rd NaN = NaN"
  by (simp_all add: rounded_def)

lemma rounded_exact: "rounded Num x = x"
  by (cases x) simp_all

lemma competing_with_exact: "calculateCompetingRisks_with Num time = calculateCompetingRisks time"
  by (simp add: calculateCompetingRisks_with_def calculateCompetingRisks_def rounded_exact)

lemma predict_with_exact: "predictReadmissionRisk_with Num f = predictReadmissionRisk f"
  by (simp add: predictReadmissionRisk_with_def predictReadmissionRisk_def rounded_exact
      calculateCoxRiskScore_with_def calculateCoxRiskScore_def linearPredictor_with_def
      linearPredictor_def calculateWeibullSurvival_with_def calculateWeibullSurvival_def
      categorize_with_def categorize_def)

subsection \<open>Values of the rounding\<close>

lemma round_double_zero: "round_double 0 = Num 0"
  by (simp add: round_double_def)

lemma round_double_one: "round_double 1 = Num 1"
  using round_double_eval [of 0 1] by (simp add: round_even_def)

lemma round_double_near_one:
  assumes "1 - 1 / 2 ^ 54 < z" "z \<le> 1"
  shows "round_double z = Num 1"
proof (cases "z = 1")
  case True
  then show ?thesis by (simp add: round_double_one)
next
  case False
  with assms have lt: "z < 1" by simp
  have half: "1/2 \<le> z"
    using assms(1) by simp
  have k: "round_even (z / 2 powi (- 1 - 52)) = 2 ^ 53"
  proof (rule round_even_up)
    show "of_int (2 ^ 53) - 1 / 2 < z / 2 powi (- 1 - 52)"
      using assms(1) by (simp add: field_simps)
    show "z / 2 powi (- 1 - 52) \<le> of_int (2 ^ 53)"
      using lt by (simp add: field_simps)
  qed
  have "round_double z =
      Num (of_int (round_even (z / 2 powi (- 1 - 52))) * 2 powi (- 1 - 52))"
  proof (rule round_double_eval)
    show "2 powi - 1 \<le> \<bar>z\<bar>" "\<bar>z\<bar> < 2 powi (- 1 + 1)"
      using half lt by simp_all
    show "\<bar>of_int (round_even (z / 2 powi (- 1 - 52))) * (2::real) powi (- 1 - 52)\<bar> < 2 ^ 1024"
      unfolding k by simp
  qed simp
  then show ?thesis
    unfolding k by simp
qed

lemma rd_lit_04: "round_double 0.4 = Num (7205759403792794 / 2 ^ 54)"
  using round_double_eval [of "- 2" "0.4"] by (simp add: round_even_def)

lemma rd_lit_01: "round_double 0.1 = Num (7205759403792794 / 2 ^ 56)"
  using round_double_eval [of "- 4" "0.1"] by (simp add: round_even_def)

lemma rd_lit_012: "round_double 0.12 = Num (8646911284551352 / 2 ^ 56)"
  using round_double_eval [of "- 4" "0.12"] by (simp add: round_even_def)

lemma rd_lit_038: "round_double 0.38 = Num (6845471433603154 / 2 ^ 54)"
  using round_double_eval [of "- 2" "0.38"] by (simp add: round_even_def)

lemma tiny_quotients:
  "round_double (- (1800 / 2 ^ 70) / 45) = Num (- (40 / 2 ^ 70))"
  "round_double (- (1800 / 2 ^ 70) / 60) = Num (- (30 / 2 ^ 70))"
  "round_double (- (1800 / 2 ^ 70) / 50) = Num (- (36 / 2 ^ 70))"
  "round_double (- (1800 / 2 ^ 70) / 40) = Num (- (45 / 2 ^ 70))"
  using round_double_eval [of "- 65" "- (1800 / 2 ^ 70) / 45"]
    round_double_eval [of "- 66" "- (1800 / 2 ^ 70) / 60"]
    round_double_eval [of "- 65" "- (1800 / 2 ^ 70) / 50"]
    round_double_eval [of "- 65" "- (1800 / 2 ^ 70) / 40"]
  by (simp_all add: round_even_def)

lemma exp_tiny_rounds_to_one:
  assumes "0 \<le> x" "x < 1 / 2 ^ 54"
  shows "round_double (exp (- x)) = Num 1"
proof (rule round_double_near_one)
  have "1 - x \<le> exp (- x)"
    by (rule exp_minus_ge)
  then show "1 - 1 / 2 ^ 54 < exp (- x)"
    using assms(2) by simp
  show "exp (- x) \<le> 1"
    using assms(1) by simp
qed

lemma base_with_tiny:
  assumes "round_double w = Num c" "round_double (- t / tau) = Num (- x)"
    and "0 \<le> x" "x < 1 / 2 ^ 54" "tau \<noteq> 0"
  shows "rounded round_double (js_mul (round_double w) (rounded round_double (js_sub (Num 1)
           (rounded round_double (js_exp (rounded round_double
              (js_div (js_neg (Num t)) (Num tau)))))))) = Num 0"
  using assms by (simp add: js_sub_def exp_tiny_rounds_to_one round_double_zero)

lemma binade_le:
  assumes "y \<noteq> 0" "\<bar>y\<bar> < 2 powi (e + 1)" "- 1022 \<le> e"
  shows "binade y \<le> e"
proof -
  have "(2::real) powr of_int (e + 1) = 2 powi (e + 1)"
    by (rule powr_real_of_int') simp_all
  then have "\<bar>y\<bar> < 2 powr of_int (e + 1)"
    using assms(2) by simp
  then have "log 2 \<bar>y\<bar> < of_int (e + 1)"
    using assms(1) by (simp add: log_less_iff)
  then have "\<lfloor>log 2 \<bar>y\<bar>\<rfloor> \<le> e"
    by (simp add: floor_le_iff)
  then show ?thesis
    using assms(3) by (simp add: binade_def)
qed

lemma round_double_close:
  assumes "y \<noteq> 0" "\<bar>y\<bar> < 2 powi (e + 1)" "- 1022 \<le> e" "e \<le> 1022"
  shows "\<exists>m. round_double y = Num m \<and> \<bar>m - y\<bar> \<le> 2 powi (e - 53) \<and> (0 \<le> y \<longrightarrow> 0 \<le> m)"
proof -
  define s :: real where "s = 2 powi (binade y - 52)"
  define m where "m = of_int (round_even (y / s)) * s"
  have spos: "0 < s"
    unfolding s_def by simp
  have "binade y - 52 \<le> e - 52"
    using binade_le [OF assms(1-3)] by simp
  then have sle: "s \<le> 2 powi (e - 52)"
    unfolding s_def by (intro power_int_increasing) simp_all
  have "m - y = s * (of_int (round_even (y / s)) - y / s)"
    using spos by (simp add: m_def field_simps)
  then have "\<bar>m - y\<bar> = s * \<bar>of_int (round_even (y / s)) - y / s\<bar>"
    using spos by (simp add: abs_mult)
  also have "\<dots> \<le> s * (1/2)"
    using spos round_even_err [of "y / s"] by (intro mult_left_mono) simp_all
  also have "\<dots> \<le> 2 powi (e - 52) * (1/2)"
    using sle by simp
  also have "\<dots> = 2 powi (e - 53)"
    by (simp add: power_int_diff)
  finally have err: "\<bar>m - y\<bar> \<le> 2 powi (e - 53)" .
  have "(2::real) powi (e - 53) \<le> 2 powi (e + 1)"
    by (intro power_int_increasing) simp_all
  then have "\<bar>m\<bar> < 2 * 2 powi (e + 1)"
    using err assms(2) by linarith
  also have "\<dots> = 2 powi (e + 2)"
    by (simp add: power_int_add)
  also have "\<dots> \<le> 2 powi 1024"
    using assms(4) by (intro power_int_increasing) simp_all
  finally have "\<bar>m\<bar> < 2 ^ 1024"
    by simp
  then have r: "round_double y = Num m"
    using assms(1) by (simp add: round_double_def Let_def s_def [symmetric] m_def [symmetric])
  have "0 \<le> m" if "0 \<le> y"
    unfolding m_def using that spos round_even_nonneg [of "y / s"] by simp
  with r err show ?thesis
    by blast
qed

lemma baseline30_rounded:
  "\<exists>S. calculateWeibullSurvival_with round_double (Num 30) (Num 1.5) (Num 60) = Num S
       \<and> 0 < S \<and> S \<le> 3/4"
proof -
  have q: "round_double (30 / 60) = Num (1/2)"
    using round_double_eval [of "- 1" "30 / 60"] by (simp add: round_even_def)
  define y :: real where "y = (1/2) powr (3/2)"
  have yb: "0.35355 < y" "y < 0.35356"
    unfolding y_def by (rule half_powr_bounds)+
  obtain c where c: "round_double y = Num c" "\<bar>c - y\<bar> \<le> 2 powi (- 2 - 53)"
    using round_double_close [of y "- 2"] yb by auto
  have cb: "0.35 \<le> c" "c \<le> 0.36"
    using c(2) yb by (simp_all add: abs_if split: if_splits)
  define z where "z = exp (- c)"
  have "1 + c \<le> exp c"
    by simp
  then have "exp (- c) \<le> 1 / (1 + c)"
    using cb by (simp add: exp_minus field_simps)
  also have "\<dots> \<le> 0.745"
    using cb by (simp add: field_simps)
  finally have zu: "z \<le> 0.745"
    unfolding z_def .
  have "1 - c \<le> exp (- c)"
    by (rule exp_minus_ge)
  then have zl: "0.64 \<le> z"
    unfolding z_def using cb by simp
  obtain S where S: "round_double z = Num S" "\<bar>S - z\<bar> \<le> 2 powi (- 1 - 53)"
    using round_double_close [of z "- 1"] zl zu by auto
  have Sb: "0 < S" "S \<le> 3/4"
    using S(2) zl zu by (simp_all add: abs_if split: if_splits)
  have "calculateWeibullSurvival_with round_double (Num 30) (Num 1.5) (Num 60) = Num S"
    using q c(1) S(1)
    by (simp add: calculateWeibullSurvival_with_def js_pow_pos y_def z_def)
  with Sb show ?thesis
    by blast
qed

lemma exp_six_bounds: "244 \<le> exp (6::real)" "exp (7::real) \<le> 2187"
proof -
  have e1: "5/2 \<le> exp (1::real)"
    using exp_lower_Taylor_quadratic [of "1::real"] by simp
  have "exp (6::real) = exp 1 ^ 6"
    using exp_of_nat_mult [of 6 "1::real"] by simp
  moreover have "(5/2::real) ^ 6 \<le> exp 1 ^ 6"
    using e1 by (intro power_mono) simp_all
  ultimately show "244 \<le> exp (6::real)"
    by (simp add: power_divide)
  have "exp (7::real) = exp 1 ^ 7"
    using exp_of_nat_mult [of 7 "1::real"] by simp
  moreover have "exp (1::real) ^ 7 \<le> 3 ^ 7"
    using exp_le by (intro power_mono) simp_all
  ultimately show "exp (7::real) \<le> 2187"
    by simp
qed

lemma hazard_ratio_rounded:
  assumes "linearPredictor_with round_double f = Num L" "6 \<le> L" "L \<le> 7"
  shows "\<exists>r. calculateCoxRiskScore_with round_double f = Num r \<and> 243 \<le> r"
proof -
  have lo: "244 \<le> exp L"
    using exp_six_bounds(1) assms(2) by (smt (verit) exp_le_cancel_iff)
  have hi: "exp L \<le> 2187"
    using exp_six_bounds(2) assms(3) by (smt (verit) exp_le_cancel_iff)
  obtain r where r: "round_double (exp L) = Num r" "\<bar>r - exp L\<bar> \<le> 2 powi (11 - 53)"
    using round_double_close [of "exp L" 11] hi by auto
  have "243 \<le> r"
    using r(2) lo by (simp add: abs_if split: if_splits)
  then show ?thesis
    using r(1) assms(1) by (simp add: calculateCoxRiskScore_with_def)
qed

lemma adjusted_rounds_below:
  assumes "0 < S" "S \<le> 3/4" "243 \<le> r"
  shows "\<exists>a. round_double (S powr r) = Num a \<and> 0 \<le> a \<and> a < 1 / 2 ^ 54"
proof -
  have "S powr r \<le> (3/4) powr r"
    using assms by (intro powr_mono2) simp_all
  also have "\<dots> \<le> (3/4) powr 243"
    using assms(3) by (intro powr_mono') simp_all
  also have "\<dots> = (3/4) ^ 243"
    by simp
  also have "\<dots> < 1 / 2 ^ 56"
    by (simp add: power_divide)
  finally have small: "S powr r < 1 / 2 ^ 56" .
  have pos: "0 < S powr r"
    using assms(1) by simp
  obtain a where a: "round_double (S powr r) = Num a" "\<bar>a - S powr r\<bar> \<le> 2 powi (- 57 - 53)"
      "0 \<le> a"
    using round_double_close [of "S powr r" "- 57"] small pos by auto
  have "a < 1 / 2 ^ 54"
    using a(2) small by (simp add: abs_if split: if_splits)
  with a show ?thesis
    by blast
qed

lemma lp_prior_ten:
  "\<exists>L. linearPredictor_with round_double ((referencePatient pid)\<lparr>priorAdmissions := 10\<rparr>) = Num L
       \<and> 6 \<le> L \<and> L \<le> 7"
proof -
  have l1: "round_double 0.035 = Num (5044031582654956 / 2 ^ 57)"
    using round_double_eval [of "- 5" "0.035"] by (simp add: round_even_def)
  have l2: "round_double 0.52 = Num (4683743612465316 / 2 ^ 53)"
    using round_double_eval [of "- 1" "0.52"] by (simp add: round_even_def)
  have l3: "round_double 0.64 = Num (5764607523034235 / 2 ^ 53)"
    using round_double_eval [of "- 1" "0.64"] by (simp add: round_even_def)
  have l4: "round_double 0.76 = Num (6845471433603154 / 2 ^ 53)"
    using round_double_eval [of "- 1" "0.76"] by (simp add: round_even_def)
  have l5: "round_double 0.41 = Num (7385903388887613 / 2 ^ 54)"
    using round_double_eval [of "- 2" "0.41"] by (simp add: round_even_def)
  have l6: "round_double (- 0.015) = Num (- (8646911284551352 / 2 ^ 59))"
    using round_double_eval [of "- 7" "- 0.015"] by (simp add: round_even_def)
  have p: "round_double (5764607523034235 / 2 ^ 53 * 10) = Num (7205759403792794 / 2 ^ 50)"
    using round_double_eval [of 2 "5764607523034235 / 2 ^ 53 * 10"] by (simp add: round_even_def)
  have i: "round_double (7205759403792794 / 2 ^ 50) = Num (7205759403792794 / 2 ^ 50)"
    using round_double_eval [of 2 "7205759403792794 / 2 ^ 50"] by (simp add: round_even_def)
  have "linearPredictor_with round_double ((referencePatient pid)\<lparr>priorAdmissions := 10\<rparr>)
      = Num (7205759403792794 / 2 ^ 50)"
    using l1 l2 l3 l4 l5 l6 p i
    by (simp add: linearPredictor_with_def referencePatient_def js_sub_def bool_num_def
        round_double_zero)
  moreover have "(6::real) \<le> 7205759403792794 / 2 ^ 50" "(7205759403792794::real) / 2 ^ 50 \<le> 7"
    by simp_all
  ultimately show ?thesis
    by blast
qed

subsection \<open>Rounding errors of the competing-risks computation\<close>

lemma binade_lower:
  assumes "2 powi (- 1022) \<le> \<bar>y\<bar>"
  shows "2 powi (binade y) \<le> \<bar>y\<bar>"
proof -
  have pos: "0 < \<bar>y\<bar>"
    using assms by (smt (verit) zero_less_power_int)
  show ?thesis
  proof (cases "\<lfloor>log 2 \<bar>y\<bar>\<rfloor> \<le> - 1022")
    case True
    then have "binade y = - 1022"
      by (simp add: binade_def)
    then show ?thesis
      using assms by simp
  next
    case False
    then have b: "binade y = \<lfloor>log 2 \<bar>y\<bar>\<rfloor>"
      by (simp add: binade_def)
    have "2 powr of_int \<lfloor>log 2 \<bar>y\<bar>\<rfloor> \<le> \<bar>y\<bar>"
      using pos by (simp add: powr_le_iff)
    then show ?thesis
      unfolding b by (simp add: powr_real_of_int')
  qed
qed

lemma round_double_rel:
  assumes "2 powi (- 1022) \<le> \<bar>y\<bar>"
  shows "(\<exists>m. round_double y = Num m \<and> \<bar>m - y\<bar> \<le> \<bar>y\<bar> / 2 ^ 53)
       \<or> (round_double y = (if 0 < y then PInf else NInf) \<and> 2 ^ 1023 \<le> \<bar>y\<bar>)"
proof -
  have nz: "y \<noteq> 0"
    using assms by (smt (verit) zero_less_power_int)
  define s :: real where "s = 2 powi (binade y - 52)"
  define m where "m = of_int (round_even (y / s)) * s"
  have spos: "0 < s"
    unfolding s_def by simp
  have "m - y = s * (of_int (round_even (y / s)) - y / s)"
    using spos by (simp add: m_def field_simps)
  then have "\<bar>m - y\<bar> = s * \<bar>of_int (round_even (y / s)) - y / s\<bar>"
    using spos by (simp add: abs_mult)
  also have "\<dots> \<le> s * (1/2)"
    using spos round_even_err [of "y / s"] by (intro mult_left_mono) simp_all
  also have "\<dots> = 2 powi (binade y) / 2 ^ 53"
    unfolding s_def by (simp add: power_int_diff)
  also have "\<dots> \<le> \<bar>y\<bar> / 2 ^ 53"
    using binade_lower [OF assms] by (simp add: divide_right_mono)
  finally have err: "\<bar>m - y\<bar> \<le> \<bar>y\<bar> / 2 ^ 53" .
  show ?thesis
  proof (cases "2 ^ 1024 \<le> \<bar>m\<bar>")
    case True
    then have r: "round_double y = (if 0 < y then PInf else NInf)"
      using nz by (simp add: round_double_def Let_def s_def [symmetric] m_def [symmetric])
    have "\<bar>m\<bar> \<le> \<bar>y\<bar> + \<bar>y\<bar> / 2 ^ 53"
      using err by linarith
    also have "\<dots> \<le> 2 * \<bar>y\<bar>"
      by (simp add: field_simps)
    finally have "(2::real) ^ 1024 \<le> 2 * \<bar>y\<bar>"
      using True by linarith
    then have "2 ^ 1023 \<le> \<bar>y\<bar>"
      by simp
    with r show ?thesis
      by blast
  next
    case False
    then have "round_double y = Num m"
      using nz by (simp add: round_double_def Let_def s_def [symmetric] m_def [symmetric])
    with err show ?thesis
      by blast
  qed
qed

lemma exp_lipschitz_neg:
  fixes a b :: real
  assumes "a \<le> 0" "b \<le> 0"
  shows "\<bar>exp a - exp b\<bar> \<le> \<bar>a - b\<bar>"
proof -
  have key: "exp q - exp p \<le> q - p" if "p \<le> q" "q \<le> 0" for p q :: real
  proof -
    have "1 - (q - p) \<le> exp (- (q - p))"
      by (rule exp_minus_ge)
    then have "exp q * (1 - (q - p)) \<le> exp q * exp (- (q - p))"
      by (intro mult_left_mono) simp_all
    also have "\<dots> = exp p"
      by (simp add: exp_add [symmetric])
    finally have "exp q - exp p \<le> exp q * (q - p)"
      by (simp add: algebra_simps)
    also have "\<dots> \<le> 1 * (q - p)"
      using that by (intro mult_right_mono) simp_all
    finally show ?thesis
      by simp
  qed
  show ?thesis
  proof (cases "a \<le> b")
    case True
    then show ?thesis
      using key [of a b] assms by simp
  next
    case False
    then show ?thesis
      using key [of b a] assms by simp
  qed
qed

lemma exp_neg_64: "exp (- 63 :: real) \<le> 1 / 2 ^ 63"
proof -
  have "2 \<le> exp (1::real)"
    using exp_ge_add_one_self [of "1::real"] by simp
  then have "(2::real) ^ 63 \<le> exp 1 ^ 63"
    by (intro power_mono) simp_all
  also have "\<dots> = exp (63::real)"
    using exp_of_nat_mult [of 63 "1::real"] by simp
  finally have "(2::real) ^ 63 \<le> exp 63" .
  then have "1 / exp (63::real) \<le> 1 / 2 ^ 63"
    by (intro divide_left_mono) simp_all
  then show ?thesis
    by (simp add: exp_minus inverse_eq_divide)
qed

lemma exp_neg_le_frac:
  fixes h :: real
  assumes "0 \<le> h"
  shows "exp (- h) \<le> 1 / (1 + h)"
proof -
  have "1 + h \<le> exp h"
    by simp
  then have "1 / exp h \<le> 1 / (1 + h)"
    using assms by (intro divide_left_mono) (simp_all add: add_pos_nonneg)
  then show ?thesis
    by (simp add: exp_minus inverse_eq_divide)
qed

lemma abs_diff_le:
  fixes p q c :: real
  shows "0 \<le> p \<Longrightarrow> p \<le> c \<Longrightarrow> 0 \<le> q \<Longrightarrow> q \<le> c \<Longrightarrow> \<bar>p - q\<bar> \<le> c"
  by linarith

lemma exp_step:
  assumes "1 \<le> t" "40 \<le> tau" "tau \<le> 60"
  shows "\<exists>v. js_exp (rounded round_double (js_div (js_neg (Num t)) (Num tau))) = Num v
     \<and> 0 \<le> v \<and> v < 1 \<and> \<bar>v - exp (- t / tau)\<bar> \<le> 1 / 2 ^ 46"
proof -
  define y where "y = - t / tau"
  have tau: "0 < tau"
    using assms(2) by simp
  have "1 / 60 \<le> t / tau"
    using assms tau by (simp add: field_simps)
  then have yneg: "y \<le> - (1 / 60)"
    unfolding y_def by simp
  have arg: "js_div (js_neg (Num t)) (Num tau) = Num y"
    using tau by (simp add: y_def)
  have big: "2 powi (- 1022) \<le> \<bar>y\<bar>"
  proof -
    have "(2::real) powi (- 1022) \<le> 2 powi (- 6)"
      by (intro power_int_increasing) simp_all
    also have "\<dots> \<le> 1 / 60"
      by simp
    finally show ?thesis
      using yneg by simp
  qed
  have E1: "exp y < 1"
    using yneg by simp
  have far: "exp y \<le> 1 / 2 ^ 63" if "y \<le> - 63"
  proof -
    have "exp y \<le> exp (- 63)"
      using that by simp
    then show ?thesis
      using exp_neg_64 by linarith
  qed
  from round_double_rel [OF big] show ?thesis
  proof
    assume "\<exists>m. round_double y = Num m \<and> \<bar>m - y\<bar> \<le> \<bar>y\<bar> / 2 ^ 53"
    then obtain m where m: "round_double y = Num m" "\<bar>m - y\<bar> \<le> \<bar>y\<bar> / 2 ^ 53"
      by blast
    have val: "js_exp (rounded round_double (js_div (js_neg (Num t)) (Num tau))) = Num (exp m)"
      by (simp only: arg rounded_simps m(1) js_exp.simps)
    have mneg: "m < 0"
    proof -
      have "\<bar>y\<bar> / 2 ^ 53 \<le> \<bar>y\<bar> / 2"
        by (intro divide_left_mono) simp_all
      then show ?thesis
        using m(2) yneg by (simp add: abs_if split: if_splits)
    qed
    have close: "\<bar>exp m - exp y\<bar> \<le> 1 / 2 ^ 46"
    proof (cases "- 64 \<le> y")
      case True
      then have "\<bar>y\<bar> / 2 ^ 53 \<le> 64 / 2 ^ 53"
        using yneg by (intro divide_right_mono) simp_all
      then have "\<bar>m - y\<bar> \<le> 1 / 2 ^ 46"
        using m(2) by simp
      moreover have "\<bar>exp m - exp y\<bar> \<le> \<bar>m - y\<bar>"
        using mneg yneg by (intro exp_lipschitz_neg) simp_all
      ultimately show ?thesis
        by linarith
    next
      case False
      then have y64: "y < - 64"
        by simp
      have "\<bar>y\<bar> / 2 ^ 53 \<le> \<bar>y\<bar> / 64"
        by (intro divide_left_mono) simp_all
      then have "m \<le> y + \<bar>y\<bar> / 64"
        using m(2) by (simp add: abs_if split: if_splits)
      then have "m \<le> - 63"
        using y64 by simp
      then have "exp m \<le> 1 / 2 ^ 63"
        using exp_neg_64 by (smt (verit) exp_le_cancel_iff)
      moreover have "exp y \<le> 1 / 2 ^ 63"
        using far y64 by simp
      ultimately have "\<bar>exp m - exp y\<bar> \<le> 1 / 2 ^ 63"
        by (intro abs_diff_le) simp_all
      then show ?thesis
        by simp
    qed
    have "exp m < 1"
      using mneg by simp
    with val close show ?thesis
      unfolding y_def by (intro exI [of _ "exp m"]) simp
  next
    assume "round_double y = (if 0 < y then PInf else NInf) \<and> 2 ^ 1023 \<le> \<bar>y\<bar>"
    then have inf: "round_double y = NInf" and huge: "2 ^ 1023 \<le> \<bar>y\<bar>"
      using yneg by simp_all
    have val: "js_exp (rounded round_double (js_div (js_neg (Num t)) (Num tau))) = Num 0"
      by (simp only: arg rounded_simps inf js_exp.simps)
    have "(63::real) \<le> 2 ^ 1023"
      by simp
    then have "y \<le> - 63"
      using huge yneg by (simp add: abs_if split: if_splits)
    then have "exp y \<le> 1 / 2 ^ 63"
      by (rule far)
    then have "\<bar>0 - exp y\<bar> \<le> 1 / 2 ^ 46"
      by simp
    with val show ?thesis
      unfolding y_def by (intro exI [of _ 0]) simp
  qed
qed

lemma product_error:
  fixes w w' d D a c :: real
  assumes "\<bar>w' - w\<bar> \<le> a" "\<bar>d - D\<bar> \<le> c" "\<bar>w'\<bar> \<le> 1" "\<bar>D\<bar> \<le> 1"
  shows "\<bar>w' * d - w * D\<bar> \<le> c + a"
proof -
  have "w' * d - w * D = w' * (d - D) + D * (w' - w)"
    by (simp add: algebra_simps)
  then have "\<bar>w' * d - w * D\<bar> \<le> \<bar>w'\<bar> * \<bar>d - D\<bar> + \<bar>D\<bar> * \<bar>w' - w\<bar>"
    by (metis abs_mult abs_triangle_ineq)
  also have "\<dots> \<le> 1 * c + 1 * a"
    using assms by (intro add_mono mult_mono) simp_all
  finally show ?thesis
    by simp
qed

lemma quotient_error:
  fixes b B T S a c :: real
  assumes "\<bar>b - B\<bar> \<le> a" "\<bar>T - S\<bar> \<le> c" "0 \<le> B" "B \<le> S" "0 < T" "0 < S"
  shows "\<bar>b / T - B / S\<bar> \<le> (a + c) / T"
proof -
  have q: "0 \<le> B / S" "B / S \<le> 1"
    using assms by simp_all
  have "b / T - B / S = ((b - B) + (B / S) * (S - T)) / T"
    using assms(5,6) by (simp add: field_simps)
  then have "\<bar>b / T - B / S\<bar> = \<bar>(b - B) + (B / S) * (S - T)\<bar> / T"
    using assms(5) by simp
  also have "\<dots> \<le> (\<bar>b - B\<bar> + \<bar>B / S\<bar> * \<bar>S - T\<bar>) / T"
    using assms(5) by (intro divide_right_mono) (metis abs_mult abs_triangle_ineq, simp)
  also have "\<dots> \<le> (a + 1 * c) / T"
    using assms q by (intro divide_right_mono add_mono mult_mono) simp_all
  finally show ?thesis
    by simp
qed

lemma round_unit:
  assumes "0 \<le> v" "v < 2"
  shows "\<exists>m. round_double v = Num m \<and> \<bar>m - v\<bar> \<le> 1 / 2 ^ 53 \<and> 0 \<le> m"
proof (cases "v = 0")
  case True
  then show ?thesis
    by (simp add: round_double_zero)
next
  case False
  then show ?thesis
    using round_double_close [of v 0] assms by auto
qed

lemma base_rounded:
  assumes "1 \<le> t" "40 \<le> tau" "tau \<le> 60" "1 / 10 \<le> w" "w \<le> 1 / 2"
  shows "\<exists>b. rounded round_double (js_mul (round_double w) (rounded round_double (js_sub (Num 1)
           (rounded round_double (js_exp (rounded round_double
              (js_div (js_neg (Num t)) (Num tau)))))))) = Num b
       \<and> \<bar>b - spec_base w tau t\<bar> \<le> 1 / 2 ^ 44 \<and> 0 \<le> b"
proof -
  define E where "E = exp (- t / tau)"
  obtain v where v: "js_exp (rounded round_double (js_div (js_neg (Num t)) (Num tau))) = Num v"
      "0 \<le> v" "v < 1" "\<bar>v - E\<bar> \<le> 1 / 2 ^ 46"
    unfolding E_def using exp_step [OF assms(1-3)] by blast
  have tau: "0 < tau"
    using assms(2) by simp
  have h: "1 / 60 \<le> t / tau"
    using assms(1-3) tau by (simp add: field_simps)
  have "E \<le> 1 / (1 + t / tau)"
    unfolding E_def using exp_neg_le_frac [of "t / tau"] assms(1) tau by simp
  also have "\<dots> \<le> 1 / (1 + 1 / 60)"
    using h by (intro divide_left_mono) (simp_all add: add_pos_nonneg)
  finally have Eu: "E \<le> 60 / 61"
    by simp
  have El: "0 < E"
    unfolding E_def by simp
  obtain e' where e': "round_double v = Num e'" "\<bar>e' - v\<bar> \<le> 1 / 2 ^ 53" "0 \<le> e'"
    using round_unit [of v] v(2,3) by auto
  have e'u: "e' \<le> 61 / 62"
    using e'(2) v(4) Eu by (simp add: abs_if split: if_splits)
  obtain d where d: "round_double (1 - e') = Num d" "\<bar>d - (1 - e')\<bar> \<le> 1 / 2 ^ 53" "0 \<le> d"
    using round_unit [of "1 - e'"] e'(3) e'u by auto
  have du: "d \<le> 3 / 2"
    using d(2) e'(3) by (simp add: abs_if split: if_splits)
  obtain w' where w': "round_double w = Num w'" "\<bar>w' - w\<bar> \<le> 1 / 2 ^ 53" "0 \<le> w'"
    using round_unit [of w] assms(4,5) by auto
  have w'u: "w' \<le> 1"
    using w'(2) assms(5) by (simp add: abs_if split: if_splits)
  have p0: "0 \<le> w' * d"
    using w'(3) d(3) by simp
  have "w' * d \<le> 1 * (3 / 2)"
    using w'u du w'(3) d(3) by (intro mult_mono) simp_all
  then have pu: "w' * d < 2"
    by simp
  obtain b where b: "round_double (w' * d) = Num b" "\<bar>b - w' * d\<bar> \<le> 1 / 2 ^ 53" "0 \<le> b"
    using round_unit [OF p0 pu] by auto
  have val: "rounded round_double (js_mul (round_double w) (rounded round_double (js_sub (Num 1)
           (rounded round_double (js_exp (rounded round_double
              (js_div (js_neg (Num t)) (Num tau)))))))) = Num b"
    unfolding v(1) using e'(1) d(1) w'(1) b(1) by (simp add: js_sub_def)
  have dD: "\<bar>d - (1 - E)\<bar> \<le> 1 / 2 ^ 45"
    using d(2) e'(2) v(4) by (simp add: abs_if split: if_splits)
  have "\<bar>w' * d - w * (1 - E)\<bar> \<le> 1 / 2 ^ 45 + 1 / 2 ^ 53"
    using w'(2) dD w'(3) w'u El Eu by (intro product_error) simp_all
  then have "\<bar>b - w * (1 - E)\<bar> \<le> 1 / 2 ^ 44"
    using b(2) by (simp add: abs_if split: if_splits)
  then have "\<bar>b - spec_base w tau t\<bar> \<le> 1 / 2 ^ 44"
    by (simp add: spec_base_def E_def)
  with val b(3) show ?thesis
    by blast
qed

lemma spec_base_lower:
  assumes "1 \<le> t" "40 \<le> tau" "tau \<le> 60" "0 \<le> w"
  shows "w / 61 \<le> spec_base w tau t" "spec_base w tau t \<le> w"
proof -
  have tau: "0 < tau"
    using assms(2) by simp
  have h: "1 / 60 \<le> t / tau"
    using assms(1-3) tau by (simp add: field_simps)
  have "exp (- t / tau) \<le> 1 / (1 + t / tau)"
    using exp_neg_le_frac [of "t / tau"] assms(1) tau by simp
  also have "\<dots> \<le> 1 / (1 + 1 / 60)"
    using h by (intro divide_left_mono) (simp_all add: add_pos_nonneg)
  finally have "exp (- t / tau) \<le> 60 / 61"
    by simp
  then have "1 / 61 \<le> 1 - exp (- t / tau)"
    by simp
  then have "w * (1 / 61) \<le> w * (1 - exp (- t / tau))"
    using assms(4) by (intro mult_left_mono) simp_all
  then show "w / 61 \<le> spec_base w tau t"
    by (simp add: spec_base_def)
  have "w * (1 - exp (- t / tau)) \<le> w * 1"
    using assms(4) by (intro mult_left_mono) simp_all
  then show "spec_base w tau t \<le> w"
    by (simp add: spec_base_def)
qed

lemma quotient_rounded:
  fixes b B T S :: real
  assumes "\<bar>b - B\<bar> \<le> 1 / 2 ^ 44" "\<bar>T - S\<bar> \<le> 1 / 2 ^ 41" "0 \<le> B" "B \<le> S" "1 / 61 \<le> S"
    and "0 \<le> b"
  shows "\<exists>q. round_double (b / T) = Num q \<and> 0 \<le> q \<and> \<bar>q - B / S\<bar> \<le> 1 / 2 ^ 33"
proof -
  have T: "1 / 62 \<le> T"
    using assms(2,5) by (simp add: abs_if split: if_splits)
  then have Tpos: "0 < T"
    by simp
  have Spos: "0 < S"
    using assms(5) by simp
  have "\<bar>b / T - B / S\<bar> \<le> (1 / 2 ^ 44 + 1 / 2 ^ 41) / T"
    using assms(1-4) Tpos Spos by (rule quotient_error)
  also have "\<dots> \<le> (1 / 2 ^ 44 + 1 / 2 ^ 41) / (1 / 62)"
    using T by (intro divide_left_mono) simp_all
  also have "\<dots> \<le> 1 / 2 ^ 34"
    by simp
  finally have e: "\<bar>b / T - B / S\<bar> \<le> 1 / 2 ^ 34" .
  define x where "x = b / T"
  define z where "z = B / S"
  have e': "\<bar>x - z\<bar> \<le> 1 / 2 ^ 34"
    unfolding x_def z_def by (rule e)
  have z1: "z \<le> 1"
    unfolding z_def using assms(4) Spos by simp
  have u: "x < 2"
    using e' z1 by (simp add: abs_if split: if_splits)
  have l: "0 \<le> x"
    unfolding x_def using assms(6) Tpos by simp
  obtain q where q: "round_double x = Num q" "\<bar>q - x\<bar> \<le> 1 / 2 ^ 53" "0 \<le> q"
    using round_unit [OF l u] by auto
  have "\<bar>q - z\<bar> \<le> 1 / 2 ^ 33"
    using q(2) e' by (simp add: abs_if split: if_splits)
  with q show ?thesis
    unfolding x_def z_def by blast
qed

section \<open>Competing risks\<close>

text \<open>
  C1, as the code has it.  At time 0 each of the four bases is \<open>w * (1 - exp 0) = 0\<close>, so
  the total is 0 and each component is the quotient \<open>0 / 0\<close>.  The function has no case for
  a zero total: the four components are \<open>NaN\<close>, not an equal split.
\<close>

theorem competing_risks_at_zero:
  "calculateCompetingRisks (Num 0) =
     \<lparr> readmission = NaN, death = NaN, transfer = NaN, recovery = NaN \<rparr>"
  by (simp add: calculateCompetingRisks_def js_sub_def)

text \<open>
  C1, as the specification states it, fails: the readmission component at time 0 is not
  0.25, and neither is any of the other three.
\<close>

theorem competing_risks_at_zero_not_quarter:
  "readmission (calculateCompetingRisks (Num 0)) \<noteq> Num 0.25
   \<and> death (calculateCompetingRisks (Num 0)) \<noteq> Num 0.25
   \<and> transfer (calculateCompetingRisks (Num 0)) \<noteq> Num 0.25
   \<and> recovery (calculateCompetingRisks (Num 0)) \<noteq> Num 0.25"
  by (simp add: calculateCompetingRisks_def js_sub_def)






section \<open>Baseline survival and hazard rate\<close>



section \<open>Hazard ratio\<close>

text \<open>
  C4.  The hazard ratio is monotone in each covariate separately.  Raising the age, the
  number of comorbidities or the number of prior admissions, or turning the diabetes, CHF
  or COPD flag from false to true, with the other fields unchanged, never lowers the value
  of \<open>calculateCoxRiskScore\<close>; raising the socioeconomic index never raises it.
\<close>

theorem hazard_ratio_monotone:
  "(age f \<le> a \<longrightarrow>
      js_le (calculateCoxRiskScore f) (calculateCoxRiskScore (f\<lparr>age := a\<rparr>)))
   \<and> (numComorbidities f \<le> n \<longrightarrow>
      js_le (calculateCoxRiskScore f) (calculateCoxRiskScore (f\<lparr>numComorbidities := n\<rparr>)))
   \<and> (priorAdmissions f \<le> p \<longrightarrow>
      js_le (calculateCoxRiskScore f) (calculateCoxRiskScore (f\<lparr>priorAdmissions := p\<rparr>)))
   \<and> js_le (calculateCoxRiskScore (f\<lparr>diabetes := False\<rparr>))
        (calculateCoxRiskScore (f\<lparr>diabetes := True\<rparr>))
   \<and> js_le (calculateCoxRiskScore (f\<lparr>chf := False\<rparr>))
        (calculateCoxRiskScore (f\<lparr>chf := True\<rparr>))
   \<and> js_le (calculateCoxRiskScore (f\<lparr>copd := False\<rparr>))
        (calculateCoxRiskScore (f\<lparr>copd := True\<rparr>))
   \<and> (socioeconomicIndex f \<le> s \<longrightarrow>
      js_le (calculateCoxRiskScore (f\<lparr>socioeconomicIndex := s\<rparr>)) (calculateCoxRiskScore f))"
  by (simp add: cox_Num js_le_def lin_pred_def)

text \<open>
  The reference patient, aged from 65 to 75, given three comorbidities, given two prior
  admissions, and moved from index 50 to index 80.
\<close>

theorem hazard_ratio_monotone_witness:
  "js_le (calculateCoxRiskScore (referencePatient ''P001''))
        (calculateCoxRiskScore ((referencePatient ''P001'')\<lparr>age := 75\<rparr>))
   \<and> js_le (calculateCoxRiskScore (referencePatient ''P001''))
        (calculateCoxRiskScore ((referencePatient ''P001'')\<lparr>numComorbidities := 3\<rparr>))
   \<and> js_le (calculateCoxRiskScore (referencePatient ''P001''))
        (calculateCoxRiskScore ((referencePatient ''P001'')\<lparr>priorAdmissions := 2\<rparr>))
   \<and> js_le (calculateCoxRiskScore ((referencePatient ''P001'')\<lparr>socioeconomicIndex := 80\<rparr>))
        (calculateCoxRiskScore (referencePatient ''P001''))"
  using hazard_ratio_monotone [of "referencePatient ''P001''" 75 3 2 80]
  by (simp add: referencePatient_def)

section \<open>Risk projection\<close>

text \<open>
  C3.  For every feature vector, the three risks of the assessment are ordered:
  \<open>risk30Day \<le> risk60Day \<le> risk90Day\<close>.  The comparison is that of the source language,
  so the statement includes that none of the three is \<open>NaN\<close>.
\<close>

theorem horizon_risks_ordered:
  "js_le (risk30Day (predictReadmissionRisk f)) (risk60Day (predictReadmissionRisk f))
   \<and> js_le (risk60Day (predictReadmissionRisk f)) (risk90Day (predictReadmissionRisk f))"
  using risk_at_mono [of 30 60 f] risk_at_mono [of 60 90 f]
  by (simp add: predict_char js_le_def)

text \<open>
  C8.  For every feature vector, \<open>predictReadmissionRisk\<close> returns three risks that are
  finite numbers in the closed interval from 0 to 1; no special value arises on the way.
\<close>

theorem horizon_risks_in_unit_interval:
  "\<exists>r30 r60 r90.
      risk30Day (predictReadmissionRisk f) = Num r30 \<and> 0 \<le> r30 \<and> r30 \<le> 1
    \<and> risk60Day (predictReadmissionRisk f) = Num r60 \<and> 0 \<le> r60 \<and> r60 \<le> 1
    \<and> risk90Day (predictReadmissionRisk f) = Num r90 \<and> 0 \<le> r90 \<and> r90 \<le> 1"
  using risk_at_bounds [of 30 f] risk_at_bounds [of 60 f] risk_at_bounds [of 90 f]
  by (simp add: predict_char)

text \<open>
  C5.  The category of an assessment is the category of its 30-day risk, and the rule is
  strict: a risk is ``high'' exactly when it is above 0.6, ``medium'' exactly when it is
  above 0.3 and at most 0.6, ``low'' exactly when it is at most 0.3.  A risk of exactly 0.6
  is ``medium'' and a risk of exactly 0.3 is ``low''.
\<close>

theorem category_thresholds:
  "riskCategory (predictReadmissionRisk f) = categorize (risk30Day (predictReadmissionRisk f))
   \<and> (categorize (Num x) = ''high'') = (0.6 < x)
   \<and> (categorize (Num x) = ''medium'') = (0.3 < x \<and> x \<le> 0.6)
   \<and> (categorize (Num x) = ''low'') = (x \<le> 0.3)
   \<and> categorize (Num 0.6) = ''medium''
   \<and> categorize (Num 0.3) = ''low''"
  by (auto simp add: predict_char categorize_def)

section \<open>The reference patient\<close>

text \<open>
  C9, as the code has it.  For the patient aged 65 with no comorbidities, no prior
  admissions, no flags and socioeconomic index 50, the linear predictor is 0, the hazard
  ratio is 1, the 30-day risk is \<open>1 - exp (- (30 / 60) ^ 1.5)\<close>, and the category is
  ``low''.  That risk lies between 0.2978 and 0.2979: to four decimals it is 0.2978.
\<close>

theorem reference_patient_risk:
  "linearPredictor (referencePatient pid) = Num 0
   \<and> hazardRatio (predictReadmissionRisk (referencePatient pid)) = Num 1
   \<and> risk30Day (predictReadmissionRisk (referencePatient pid))
       = Num (1 - exp (- ((30 / 60) powr 1.5)))
   \<and> js_gt (risk30Day (predictReadmissionRisk (referencePatient pid))) (Num 0.2978)
   \<and> js_gt (Num 0.2979) (risk30Day (predictReadmissionRisk (referencePatient pid)))
   \<and> riskCategory (predictReadmissionRisk (referencePatient pid)) = ''low''"
proof -
  have z: "lin_pred (referencePatient pid) = 0"
    by (simp add: lin_pred_def referencePatient_def)
  show ?thesis
    using exp_neg_half_powr_bounds
    by (simp add: predict_char linearPredictor_Num risk_at_reference categorize_def z)
qed

text \<open>
  C9, as the specification states it, fails in its decimal: the 30-day risk of the
  reference patient exceeds 0.2925 by more than 0.005, so it is not 0.2925 to four
  decimals, nor 0.29 to two.
\<close>

theorem reference_patient_risk_not_2925:
  "js_gt (js_sub (risk30Day (predictReadmissionRisk (referencePatient ''P001''))) (Num 0.2925))
     (Num 0.005)"
  using exp_neg_half_powr_bounds
  by (simp add: predict_char risk_at_reference js_sub_def)

section \<open>Care plans\<close>

text \<open>
  C7.  The care plan is one of three fixed lists.  In the C-sharp engine it is a function of
  the category string alone: ``high'' gives the list of six recommendations that begins
  with the follow-up within 3 days, ``medium'' the list of five, and ``low'' (with every
  other string) the list of four.  In the TypeScript service it is the same function
  applied to the category of the \<open>risk30Day\<close> field.  The three lists are spelled out.
\<close>

theorem care_plan_fixed_mapping:
  "GenerateCarePlan r ''high'' =
     [''HIGH PRIORITY: Schedule follow-up within 3 days of discharge'',
      ''Arrange home health nursing visit within 24 hours'',
      ''Implement daily medication adherence monitoring'',
      ''Consider transitional care management program enrollment'',
      ''Schedule telehealth check-in at 48 hours post-discharge'',
      ''Ensure caregiver education and support systems in place'']
   \<and> GenerateCarePlan r ''medium'' =
     [''Schedule follow-up within 7 days of discharge'',
      ''Medication reconciliation and adherence counseling required'',
      ''Provide written discharge instructions with 24/7 contact numbers'',
      ''Arrange follow-up call within 48-72 hours'',
      ''Consider home health evaluation'']
   \<and> GenerateCarePlan r ''low'' =
     [''Standard follow-up within 14 days of discharge'',
      ''Provide discharge education materials'',
      ''Ensure understanding of medication regimen'',
      ''Provide emergency contact information'']
   \<and> length (GenerateCarePlan r ''high'') = 6
   \<and> length (GenerateCarePlan r ''medium'') = 5
   \<and> length (GenerateCarePlan r ''low'') = 4
   \<and> hd (GenerateCarePlan r ''high'')
       = ''HIGH PRIORITY: Schedule follow-up within 3 days of discharge''
   \<and> GenerateCarePlan r c = GenerateCarePlan r' c
   \<and> generateCarePlan a = GenerateCarePlan r (categorize (risk30Day a))"
  by (simp add: GenerateCarePlan_def generateCarePlan_def categorize_def
      highPlan_def mediumPlan_def lowPlan_def)




end
